theory Spec2Isabelle
  imports Main
begin

section \<open>The browser environment the component touches\<close>

text \<open>
  The component \<^verbatim>\<open>SkipRenderOnClient\<close> reads three things of its environment:
  whether \<^verbatim>\<open>window\<close> is defined, the element \<^verbatim>\<open>document.getElementById(id)\<close>,
  and whatever the caller's predicate reads. It writes one thing: \<^verbatim>\<open>el.innerHTML = ''\<close>.

  The document is a tree of elements (tag, optional \<^verbatim>\<open>id\<close> attribute, child nodes) and
  text nodes. A reference to an element (the JavaScript value \<^verbatim>\<open>el\<close>) is the path of
  child indices leading to it from the root; \<^verbatim>\<open>null\<close> is \<open>None\<close>.
\<close>

datatype dom_node = Element string "string option" "dom_node list" | TextNode string

text \<open>
  \<^verbatim>\<open>document.getElementById(id)\<close>: the first element, in document order, whose
  \<^verbatim>\<open>id\<close> attribute is the given string, or \<^verbatim>\<open>null\<close>.
\<close>

fun getElementById :: "dom_node \<Rightarrow> string \<Rightarrow> nat list option"
  and getElementByIdIn :: "dom_node list \<Rightarrow> string \<Rightarrow> nat list option" where
  "getElementById (TextNode s) i = None"
| "getElementById (Element t a ks) i =
     (if a = Some i then Some [] else getElementByIdIn ks i)"
| "getElementByIdIn [] i = None"
| "getElementByIdIn (k # ks) i =
     (case getElementById k i of
        Some p \<Rightarrow> Some (0 # p)
      | None \<Rightarrow>
         (case getElementByIdIn ks i of
            Some (n # p) \<Rightarrow> Some (Suc n # p)
          | _ \<Rightarrow> None))"

text \<open>
  \<^verbatim>\<open>el.innerHTML = ''\<close> on the element at a path: all its child nodes are removed. A path
  that leads nowhere leaves the tree as it is.
\<close>

fun removeChildrenAt :: "nat list \<Rightarrow> dom_node \<Rightarrow> dom_node"
  and removeChildrenIn :: "nat list \<Rightarrow> dom_node list \<Rightarrow> dom_node list" where
  "removeChildrenAt p (TextNode s) = TextNode s"
| "removeChildrenAt [] (Element t a ks) = Element t a []"
| "removeChildrenAt (n # p) (Element t a ks) = Element t a (removeChildrenIn (n # p) ks)"
| "removeChildrenIn p [] = []"
| "removeChildrenIn [] (k # ks) = k # ks"
| "removeChildrenIn (0 # p) (k # ks) = removeChildrenAt p k # ks"
| "removeChildrenIn (Suc n # p) (k # ks) = k # removeChildrenIn (n # p) ks"

text \<open>The node a path leads to.\<close>

fun nodeAt :: "nat list \<Rightarrow> dom_node \<Rightarrow> dom_node option"
  and nodeIn :: "nat list \<Rightarrow> dom_node list \<Rightarrow> dom_node option" where
  "nodeAt [] d = Some d"
| "nodeAt (n # p) (TextNode s) = None"
| "nodeAt (n # p) (Element t a ks) = nodeIn (n # p) ks"
| "nodeIn p [] = None"
| "nodeIn [] (k # ks) = None"
| "nodeIn (0 # p) (k # ks) = nodeAt p k"
| "nodeIn (Suc n # p) (k # ks) = nodeIn (n # p) ks"

text \<open>
  The browser globals: the state of \<^verbatim>\<open>window\<close> that a predicate may read (viewport
  width and the like, left abstract) and the document. On the server there are none:
  \<^verbatim>\<open>typeof window\<close> is \<^verbatim>\<open>'undefined'\<close>.
\<close>

record 'w browser =
  window :: 'w
  document :: dom_node

type_synonym 'w globals = "'w browser option"

datatype js_error = ReferenceError | TypeError

text \<open>
  What a render does beyond returning its element is recorded in order: each call of the
  caller's predicate with the value it returned, and each assignment
  \<^verbatim>\<open>el.innerHTML = ''\<close> with the id of the container.
\<close>

datatype event = PredicateInvoked bool | ContainerCleared string

fun isInvocation :: "event \<Rightarrow> bool" where
  "isInvocation (PredicateInvoked b) = True"
| "isInvocation (ContainerCleared i) = False"

fun isClear :: "event \<Rightarrow> bool" where
  "isClear (ContainerCleared i) = True"
| "isClear (PredicateInvoked b) = False"

section \<open>Hooks and the instance they belong to\<close>

text \<open>
  An instance owns the value of \<^verbatim>\<open>React.useId()\<close> and the cell of
  \<^verbatim>\<open>React.useRef(true)\<close>. The cell is created with its initial value when the instance
  is; on later renders the argument of \<^verbatim>\<open>useRef\<close> is ignored and the same cell comes back.
\<close>

record cinstance =
  uid :: string
  isFirst_current :: bool

definition mount :: "string \<Rightarrow> cinstance" where
  "mount i = \<lparr>uid = i, isFirst_current = True\<rparr>"

definition useId :: "cinstance \<Rightarrow> string" where
  "useId inst = uid inst"

text \<open>
  \<^verbatim>\<open>
  const useIsFirstRender = (): boolean => {
    const isFirst = React.useRef(true);
    if (isFirst.current) { isFirst.current = false; return true; }
    else { return false; }
  };
  \<close>
\<close>

definition useIsFirstRender :: "cinstance \<Rightarrow> bool \<times> cinstance" where
  "useIsFirstRender inst =
     (if isFirst_current inst then (True, inst\<lparr>isFirst_current := False\<rparr>)
      else (False, inst))"

text \<open>The values returned by \<open>n\<close> successive renders' calls of the hook, and the cell after them.\<close>

fun observeFirst :: "nat \<Rightarrow> cinstance \<Rightarrow> bool list \<times> cinstance" where
  "observeFirst 0 inst = ([], inst)"
| "observeFirst (Suc n) inst =
     (case useIsFirstRender inst of
        (b, inst1) \<Rightarrow> (case observeFirst n inst1 of (bs, inst2) \<Rightarrow> (b # bs, inst2)))"

section \<open>The component\<close>

text \<open>
  A \<^verbatim>\<open>ReactNode\<close> as far as the component can tell one from another: the value
  \<^verbatim>\<open>false\<close>, which renders nothing, or any other node. The caller may pass either as
  \<^verbatim>\<open>children\<close>. The value of \<^verbatim>\<open>shouldRender && children\<close> is \<^verbatim>\<open>children\<close> when
  \<^verbatim>\<open>shouldRender\<close> is true and \<^verbatim>\<open>false\<close> otherwise, so the two coincide when the
  children are \<^verbatim>\<open>false\<close> themselves.
\<close>

datatype 'c child = Nothing | Subtree 'c

record ('c, 'w) props =
  children :: "'c child"
  shouldRenderOnClient :: "'w browser \<Rightarrow> bool"

text \<open>The element \<^verbatim>\<open><div id={id}>{shouldRender && children}</div>\<close>.\<close>

record 'c element =
  tag :: string
  idProp :: string
  content :: "'c child"

record ('c, 'w) rendered =
  returned :: "'c element"
  instance_after :: cinstance
  globals_after :: "'w globals"
  effects :: "event list"

text \<open>
  A predicate is a closure over the browser globals (\<^verbatim>\<open>() => window.innerWidth <= 500\<close>):
  where they are undefined, evaluating it raises. So does reading \<^verbatim>\<open>document\<close>, and so
  does assigning a property of \<^verbatim>\<open>null\<close>.
\<close>

definition invoke ::
  "('w browser \<Rightarrow> bool) \<Rightarrow> 'w globals \<Rightarrow> js_error + (bool \<times> event list)" where
  "invoke f g =
     (case g of
        None \<Rightarrow> Inl ReferenceError
      | Some br \<Rightarrow> Inr (f br, [PredicateInvoked (f br)]))"

fun assignInnerHTMLEmpty :: "nat list option \<Rightarrow> dom_node \<Rightarrow> js_error + dom_node" where
  "assignInnerHTMLEmpty None d = Inl TypeError"
| "assignInnerHTMLEmpty (Some p) d = Inr (removeChildrenAt p d)"

text \<open>
  The clear step:
  \<^verbatim>\<open>
  const el = document.getElementById(id);
  if (el !== null) { el.innerHTML = ''; }
  \<close>
\<close>

definition clearStep :: "string \<Rightarrow> 'w globals \<Rightarrow> js_error + ('w globals \<times> event list)" where
  "clearStep i g =
     (case g of
        None \<Rightarrow> Inl ReferenceError
      | Some br \<Rightarrow>
         (let el = getElementById (document br) i in
          if el \<noteq> None then
            (case assignInnerHTMLEmpty el (document br) of
               Inl e \<Rightarrow> Inl e
             | Inr d \<Rightarrow> Inr (Some (br\<lparr>document := d\<rparr>), [ContainerCleared i]))
          else Inr (g, [])))"

text \<open>
  The guarded block
  \<^verbatim>\<open>
  if (isClient && isFirstRender && shouldRenderOnClient() === false) { <clear step> }
  \<close>
  with the short circuit of \<^verbatim>\<open>&&\<close>: the predicate is called only when the two flags hold.
\<close>

definition firstRenderGate ::
  "('w browser \<Rightarrow> bool) \<Rightarrow> string \<Rightarrow> bool \<Rightarrow> bool \<Rightarrow> 'w globals
     \<Rightarrow> js_error + ('w globals \<times> event list)" where
  "firstRenderGate f i isClient isFirstRender g =
     (if isClient \<and> isFirstRender then
        (case invoke f g of
           Inl e \<Rightarrow> Inl e
         | Inr (b, evs) \<Rightarrow>
            if b = False then
              (case clearStep i g of
                 Inl e \<Rightarrow> Inl e
               | Inr (g1, evs1) \<Rightarrow> Inr (g1, evs @ evs1))
            else Inr (g, evs))
      else Inr (g, []))"

text \<open>
  \<^verbatim>\<open>
  ({ children, shouldRenderOnClient }) => {
    const id = React.useId();
    const isClient = typeof window !== 'undefined';
    const isFirstRender = useIsFirstRender();
    if (isClient && isFirstRender && shouldRenderOnClient() === false) { ... }
    const shouldRender = isClient ? shouldRenderOnClient() : true;
    return <div id={id}>{shouldRender && children}</div>;
  }
  \<close>
\<close>

definition SkipRenderOnClient ::
  "('c, 'w) props \<Rightarrow> cinstance \<Rightarrow> 'w globals \<Rightarrow> js_error + ('c, 'w) rendered" where
  "SkipRenderOnClient ps inst g =
     (let i = useId inst;
          isClient = (g \<noteq> None);
          (isFirstRender, inst1) = useIsFirstRender inst
      in case firstRenderGate (shouldRenderOnClient ps) i isClient isFirstRender g of
           Inl e \<Rightarrow> Inl e
         | Inr (g1, evs1) \<Rightarrow>
            (case (if isClient then invoke (shouldRenderOnClient ps) g1 else Inr (True, [])) of
               Inl e \<Rightarrow> Inl e
             | Inr (shouldRender, evs2) \<Rightarrow>
                Inr \<lparr>returned =
                       \<lparr>tag = ''div'', idProp = i,
                           content = (if shouldRender
                                      then children ps else Nothing)\<rparr>,
                     instance_after = inst1,
                     globals_after = g1,
                     effects = evs1 @ evs2\<rparr>))"

text \<open>
  The life of one instance: a sequence of renders, each with the props and the globals of
  its moment (what the host and the page do between two renders is not constrained). The
  hook state is carried from one render to the next; an exception ends the sequence.
\<close>

fun renders ::
  "cinstance \<Rightarrow> (('c, 'w) props \<times> 'w globals) list \<Rightarrow> js_error + ('c, 'w) rendered list" where
  "renders inst [] = Inr []"
| "renders inst (x # xs) =
     (case SkipRenderOnClient (fst x) inst (snd x) of
        Inl e \<Rightarrow> Inl e
      | Inr r \<Rightarrow>
         (case renders (instance_after r) xs of
            Inl e \<Rightarrow> Inl e
          | Inr rs \<Rightarrow> Inr (r # rs)))"

section \<open>The host's first client pass\<close>

text \<open>
  The component registers no callback for the commit phase (it calls neither
  \<^verbatim>\<open>useEffect\<close> nor \<^verbatim>\<open>useLayoutEffect\<close>): whatever it does, it does inside the call of
  its render function. The host commits the returned element after that call has returned.
  The trace of the first client pass of a fresh instance is therefore the effects of the
  render call, in order, followed by the commit.
\<close>

datatype step = Effect event | Commit | Thrown js_error

fun isClearStep :: "step \<Rightarrow> bool" where
  "isClearStep (Effect e) = isClear e"
| "isClearStep Commit = False"
| "isClearStep (Thrown e) = False"

fun isCommit :: "step \<Rightarrow> bool" where
  "isCommit Commit = True"
| "isCommit (Effect e) = False"
| "isCommit (Thrown e) = False"

definition firstClientPass :: "('c, 'w) props \<Rightarrow> string \<Rightarrow> 'w browser \<Rightarrow> step list" where
  "firstClientPass ps i br =
     (case SkipRenderOnClient ps (mount i) (Some br) of
        Inl e \<Rightarrow> [Thrown e]
      | Inr r \<Rightarrow> map Effect (effects r) @ [Commit])"

text \<open>No clearing of the container before the commit, and none after it.\<close>

definition noClearBeforeCommit :: "step list \<Rightarrow> bool" where
  "noClearBeforeCommit tr = (filter isClearStep (takeWhile (\<lambda>s. \<not> isCommit s) tr) = [])"

definition noClearAfterCommit :: "step list \<Rightarrow> bool" where
  "noClearAfterCommit tr = (filter isClearStep (dropWhile (\<lambda>s. \<not> isCommit s) tr) = [])"

section \<open>The example of the component's documentation\<close>

text \<open>
  \<^verbatim>\<open>
  <SkipRenderOnClient shouldRenderOnClient={() => window.innerWidth <= 500}>
    <MyMobileComponent className={styles.showOnMobile} />
  </SkipRenderOnClient>
  \<close>
  with \<^verbatim>\<open>window.innerWidth\<close> as the state of the window, and a page whose server markup
  holds the container of the instance \<^verbatim>\<open>r0\<close> with its children rendered.
\<close>

definition mobileOnly :: "int browser \<Rightarrow> bool" where
  "mobileOnly br = (window br \<le> 500)"

definition mobileProps :: "(string, int) props" where
  "mobileProps = \<lparr>children = Subtree ''MyMobileComponent'', shouldRenderOnClient = mobileOnly\<rparr>"

definition serverMarkup :: dom_node where
  "serverMarkup =
     Element ''html'' None
       [Element ''body'' None
          [Element ''div'' (Some ''r0'') [Element ''nav'' None [TextNode ''menu'']],
           Element ''div'' (Some ''r1'') [TextNode ''desk'']]]"

definition desktop :: "int browser" where
  "desktop = \<lparr>window = 1024, document = serverMarkup\<rparr>"

definition phone :: "int browser" where
  "phone = \<lparr>window = 390, document = serverMarkup\<rparr>"

text \<open>The same page once the container \<^verbatim>\<open>r0\<close> has been emptied.\<close>

definition clearedMarkup :: dom_node where
  "clearedMarkup =
     Element ''html'' None
       [Element ''body'' None
          [Element ''div'' (Some ''r0'') [],
           Element ''div'' (Some ''r1'') [TextNode ''desk'']]]"

text \<open>The element a render returned, if it returned.\<close>

fun elementOf :: "js_error + ('c, 'w) rendered \<Rightarrow> 'c element option" where
  "elementOf (Inl e) = None"
| "elementOf (Inr r) = Some (returned r)"

section \<open>Properties of the document operations\<close>

lemma getElementByIdIn_path: "getElementByIdIn ks i = Some p \<Longrightarrow> \<exists>n q. p = n # q"
  by (cases ks) (auto split: option.splits list.splits)

lemma getElementById_after_clear:
  "getElementById d i = Some p \<Longrightarrow> getElementById (removeChildrenAt p d) i = Some p"
  "getElementByIdIn ks i = Some p \<Longrightarrow> getElementByIdIn (removeChildrenIn p ks) i = Some p"
  by (induction d i and ks i arbitrary: p and p rule: getElementById_getElementByIdIn.induct)
     (auto split: if_splits option.splits list.splits dest: getElementByIdIn_path)

lemma removeChildrenAt_twice:
  "removeChildrenAt p (removeChildrenAt p d) = removeChildrenAt p d"
  "removeChildrenIn p (removeChildrenIn p ks) = removeChildrenIn p ks"
  by (induction p d and p ks rule: removeChildrenAt_removeChildrenIn.induct) auto

lemma nodeAt_after_clear:
  "getElementById d i = Some p \<Longrightarrow>
     \<exists>t. nodeAt p (removeChildrenAt p d) = Some (Element t (Some i) [])"
  "getElementByIdIn ks i = Some p \<Longrightarrow>
     \<exists>t. nodeIn p (removeChildrenIn p ks) = Some (Element t (Some i) [])"
  by (induction d i and ks i arbitrary: p and p rule: getElementById_getElementByIdIn.induct)
     (auto split: if_splits option.splits list.splits dest: getElementByIdIn_path)

section \<open>The clear step, found or missing\<close>

lemma clearStep_missing:
  "getElementById (document br) i = None \<Longrightarrow> clearStep i (Some br) = Inr (Some br, [])"
  by (simp add: clearStep_def)

lemma clearStep_found:
  "getElementById (document br) i = Some p \<Longrightarrow>
   clearStep i (Some br) =
     Inr (Some (br\<lparr>document := removeChildrenAt p (document br)\<rparr>), [ContainerCleared i])"
  by (simp add: clearStep_def)

section \<open>The render function, case by case\<close>

lemma render_server:
  "SkipRenderOnClient ps inst None =
     Inr \<lparr>returned = \<lparr>tag = ''div'', idProp = uid inst, content = children ps\<rparr>,
          instance_after = inst\<lparr>isFirst_current := False\<rparr>,
          globals_after = None, effects = []\<rparr>"
  by (simp add: SkipRenderOnClient_def useId_def useIsFirstRender_def firstRenderGate_def)

lemma render_client_later:
  "\<not> isFirst_current inst \<Longrightarrow>
   SkipRenderOnClient ps inst (Some br) =
     Inr \<lparr>returned = \<lparr>tag = ''div'', idProp = uid inst,
         content = (if shouldRenderOnClient ps br
                    then children ps else Nothing)\<rparr>,
          instance_after = inst,
          globals_after = Some br,
          effects = [PredicateInvoked (shouldRenderOnClient ps br)]\<rparr>"
  by (simp add: SkipRenderOnClient_def useId_def useIsFirstRender_def firstRenderGate_def invoke_def)

lemma render_client_first_true:
  "isFirst_current inst \<Longrightarrow> shouldRenderOnClient ps br \<Longrightarrow>
   SkipRenderOnClient ps inst (Some br) =
     Inr \<lparr>returned = \<lparr>tag = ''div'', idProp = uid inst, content = children ps\<rparr>,
          instance_after = inst\<lparr>isFirst_current := False\<rparr>,
          globals_after = Some br,
          effects = [PredicateInvoked True, PredicateInvoked True]\<rparr>"
  by (simp add: SkipRenderOnClient_def useId_def useIsFirstRender_def firstRenderGate_def invoke_def)

lemma render_client_first_false_missing:
  "isFirst_current inst \<Longrightarrow> \<not> shouldRenderOnClient ps br \<Longrightarrow>
   getElementById (document br) (uid inst) = None \<Longrightarrow>
   SkipRenderOnClient ps inst (Some br) =
     Inr \<lparr>returned = \<lparr>tag = ''div'', idProp = uid inst, content = Nothing\<rparr>,
          instance_after = inst\<lparr>isFirst_current := False\<rparr>,
          globals_after = Some br,
          effects = [PredicateInvoked False, PredicateInvoked False]\<rparr>"
  by (simp add: SkipRenderOnClient_def useId_def useIsFirstRender_def firstRenderGate_def
      invoke_def clearStep_missing)

lemma render_client_first_false_found:
  "isFirst_current inst \<Longrightarrow> \<not> shouldRenderOnClient ps br \<Longrightarrow>
   getElementById (document br) (uid inst) = Some p \<Longrightarrow>
   br' = br\<lparr>document := removeChildrenAt p (document br)\<rparr> \<Longrightarrow>
   SkipRenderOnClient ps inst (Some br) =
     Inr \<lparr>returned = \<lparr>tag = ''div'', idProp = uid inst,
         content = (if shouldRenderOnClient ps br'
                    then children ps else Nothing)\<rparr>,
          instance_after = inst\<lparr>isFirst_current := False\<rparr>,
          globals_after = Some br',
          effects = [PredicateInvoked False, ContainerCleared (uid inst),
            PredicateInvoked (shouldRenderOnClient ps br')]\<rparr>"
  by (simp add: SkipRenderOnClient_def useId_def useIsFirstRender_def firstRenderGate_def
      invoke_def clearStep_found Let_def)

lemma render_total: "\<exists>r. SkipRenderOnClient ps inst g = Inr r"
proof (cases g)
  case None
  then show ?thesis by (simp add: render_server)
next
  case (Some br)
  show ?thesis
  proof (cases "isFirst_current inst")
    case False
    then show ?thesis using Some by (simp add: render_client_later)
  next
    case first: True
    show ?thesis
    proof (cases "shouldRenderOnClient ps br")
      case True
      then show ?thesis using Some first by (simp add: render_client_first_true)
    next
      case False
      then show ?thesis using Some first
        by (cases "getElementById (document br) (uid inst)")
           (simp_all add: render_client_first_false_missing render_client_first_false_found)
    qed
  qed
qed

lemma render_instance_after:
  "SkipRenderOnClient ps inst g = Inr r \<Longrightarrow>
     instance_after r = inst\<lparr>isFirst_current := False\<rparr>"
  by (auto simp: SkipRenderOnClient_def useId_def useIsFirstRender_def firstRenderGate_def
      invoke_def clearStep_def Let_def split: if_splits sum.splits option.splits prod.splits)

lemma render_clear_events:
  "SkipRenderOnClient ps inst g = Inr r \<Longrightarrow>
     length (filter isClear (effects r)) \<le> 1 \<and>
     (ContainerCleared j \<in> set (effects r) \<longrightarrow>
        isFirst_current inst \<and> j = uid inst \<and>
        (\<exists>br. g = Some br \<and> \<not> shouldRenderOnClient ps br))"
  by (auto simp: SkipRenderOnClient_def useId_def useIsFirstRender_def firstRenderGate_def
      invoke_def clearStep_def Let_def split: if_splits sum.splits option.splits prod.splits)

lemma render_later_no_clear:
  "\<not> isFirst_current inst \<Longrightarrow> SkipRenderOnClient ps inst g = Inr r \<Longrightarrow>
     filter isClear (effects r) = []"
  by (cases g) (auto simp: render_server render_client_later)

section \<open>Sequences of renders\<close>

lemma renders_total: "\<exists>rs. renders inst xs = Inr rs \<and> length rs = length xs"
proof (induction xs arbitrary: inst)
  case Nil
  then show ?case by simp
next
  case (Cons x xs)
  obtain r where r: "SkipRenderOnClient (fst x) inst (snd x) = Inr r"
    using render_total by blast
  obtain rs where "renders (instance_after r) xs = Inr rs" "length rs = length xs"
    using Cons.IH by blast
  then show ?case using r by simp
qed

lemma renders_Cons:
  "renders inst (x # xs) = Inr rs \<Longrightarrow>
     \<exists>r rs'. rs = r # rs' \<and> SkipRenderOnClient (fst x) inst (snd x) = Inr r \<and>
       renders (inst\<lparr>isFirst_current := False\<rparr>) xs = Inr rs'"
  by (auto split: sum.splits dest: render_instance_after)

lemma renders_later:
  "\<not> isFirst_current inst \<Longrightarrow> renders inst xs = Inr rs \<Longrightarrow> k < length xs \<Longrightarrow>
   snd (xs ! k) = Some br \<Longrightarrow>
   rs ! k = \<lparr>returned = \<lparr>tag = ''div'', idProp = uid inst,
       content = (if shouldRenderOnClient (fst (xs ! k)) br
                  then children (fst (xs ! k)) else Nothing)\<rparr>,
             instance_after = inst,
             globals_after = Some br,
             effects = [PredicateInvoked (shouldRenderOnClient (fst (xs ! k)) br)]\<rparr>"
proof (induction xs arbitrary: rs k)
  case Nil
  then show ?case by simp
next
  case (Cons x xs)
  obtain r rs' where rs: "rs = r # rs'"
    and r: "SkipRenderOnClient (fst x) inst (snd x) = Inr r"
    and rest: "renders (inst\<lparr>isFirst_current := False\<rparr>) xs = Inr rs'"
    using renders_Cons [OF Cons.prems(2)] by blast
  have same: "inst\<lparr>isFirst_current := False\<rparr> = inst"
    using Cons.prems(1) by simp
  show ?case
  proof (cases k)
    case 0
    then have "snd x = Some br" using Cons.prems(4) by simp
    then have "SkipRenderOnClient (fst x) inst (Some br) = Inr r" using r by simp
    then have "r = \<lparr>returned = \<lparr>tag = ''div'', idProp = uid inst,
        content = (if shouldRenderOnClient (fst x) br
                   then children (fst x) else Nothing)\<rparr>,
             instance_after = inst,
             globals_after = Some br,
             effects = [PredicateInvoked (shouldRenderOnClient (fst x) br)]\<rparr>"
      unfolding render_client_later [OF Cons.prems(1)] by blast
    then show ?thesis using rs 0 by simp
  next
    case (Suc k')
    then show ?thesis using Cons.IH [of rs' k'] Cons.prems rest rs same by simp
  qed
qed

lemma renders_later_no_clear:
  "\<not> isFirst_current inst \<Longrightarrow> renders inst xs = Inr rs \<Longrightarrow>
     filter isClear (concat (map effects rs)) = []"
proof (induction xs arbitrary: rs)
  case Nil
  then show ?case by simp
next
  case (Cons x xs)
  obtain r rs' where rs: "rs = r # rs'"
    and r: "SkipRenderOnClient (fst x) inst (snd x) = Inr r"
    and rest: "renders (inst\<lparr>isFirst_current := False\<rparr>) xs = Inr rs'"
    using renders_Cons [OF Cons.prems(2)] by blast
  have same: "inst\<lparr>isFirst_current := False\<rparr> = inst"
    using Cons.prems(1) by simp
  have "filter isClear (effects r) = []"
    using render_later_no_clear [OF Cons.prems(1) r] .
  moreover have "filter isClear (concat (map effects rs')) = []"
    using Cons.IH [of rs'] Cons.prems(1) rest same by simp
  ultimately show ?case using rs by simp
qed

lemma renders_instance_after:
  "renders inst xs = Inr rs \<Longrightarrow> r \<in> set rs \<Longrightarrow>
     instance_after r = inst\<lparr>isFirst_current := False\<rparr>"
proof (induction xs arbitrary: rs inst)
  case Nil
  then show ?case by simp
next
  case (Cons x xs)
  obtain r0 rs' where rs: "rs = r0 # rs'"
    and r0: "SkipRenderOnClient (fst x) inst (snd x) = Inr r0"
    and rest: "renders (inst\<lparr>isFirst_current := False\<rparr>) xs = Inr rs'"
    using renders_Cons [OF Cons.prems(1)] by blast
  show ?case
  proof (cases "r = r0")
    case True
    then show ?thesis using render_instance_after [OF r0] by simp
  next
    case False
    then have "r \<in> set rs'" using Cons.prems(2) rs by simp
    then show ?thesis using Cons.IH [OF rest] by simp
  qed
qed

section \<open>Server renders\<close>

text \<open>
  Claim C2. Whatever the predicate, a render where the browser globals are undefined (a
  server render) returns the container with the children present: its content is the
  children as they were passed. This holds for an instance in any state, and the render
  does not raise.
\<close>

theorem server_render_includes_children:
  "\<exists>r. SkipRenderOnClient \<lparr>children = c, shouldRenderOnClient = f\<rparr> inst None = Inr r
       \<and> returned r = \<lparr>tag = ''div'', idProp = useId inst, content = c\<rparr>"
  by (simp add: render_server useId_def)

theorem server_render_includes_children_witness:
  "\<exists>r. SkipRenderOnClient mobileProps (mount ''r0'') None = Inr r
       \<and> returned r = \<lparr>tag = ''div'', idProp = ''r0'', content = Subtree ''MyMobileComponent''\<rparr>"
  using server_render_includes_children [of "Subtree ''MyMobileComponent''" mobileOnly "mount ''r0''"]
  by (simp add: mobileProps_def useId_def mount_def)

text \<open>
  Claim C6. In a server render the caller's predicate is never invoked: the record of the
  render's effects holds no invocation, for an instance in any state and for every
  predicate.
\<close>

theorem server_render_never_invokes_predicate:
  "\<exists>r. SkipRenderOnClient \<lparr>children = c, shouldRenderOnClient = f\<rparr> inst None = Inr r
       \<and> filter isInvocation (effects r) = []"
  by (simp add: render_server)

theorem server_render_never_invokes_predicate_witness:
  "\<exists>r. SkipRenderOnClient mobileProps (mount ''r0'') None = Inr r
       \<and> filter isInvocation (effects r) = []"
  using server_render_never_invokes_predicate [of "Subtree ''MyMobileComponent''" mobileOnly "mount ''r0''"]
  by (simp add: mobileProps_def)

section \<open>The documented example, evaluated\<close>

lemma example_container: "getElementById serverMarkup ''r0'' = Some [0, 0]"
  by (simp add: serverMarkup_def)

lemma example_cleared: "removeChildrenAt [0, 0] serverMarkup = clearedMarkup"
  by (simp add: serverMarkup_def clearedMarkup_def)

lemma example_server:
  "SkipRenderOnClient mobileProps (mount ''r0'') None =
     Inr \<lparr>returned = \<lparr>tag = ''div'', idProp = ''r0'', content = Subtree ''MyMobileComponent''\<rparr>,
          instance_after = \<lparr>uid = ''r0'', isFirst_current = False\<rparr>,
          globals_after = None, effects = []\<rparr>"
  by (simp add: render_server mount_def mobileProps_def)

lemma example_desktop_first:
  "SkipRenderOnClient mobileProps (mount ''r0'') (Some desktop) =
     Inr \<lparr>returned = \<lparr>tag = ''div'', idProp = ''r0'', content = Nothing\<rparr>,
          instance_after = \<lparr>uid = ''r0'', isFirst_current = False\<rparr>,
          globals_after = Some \<lparr>window = 1024, document = clearedMarkup\<rparr>,
          effects = [PredicateInvoked False, ContainerCleared ''r0'', PredicateInvoked False]\<rparr>"
proof -
  have "isFirst_current (mount ''r0'')" "\<not> shouldRenderOnClient mobileProps desktop"
    "getElementById (document desktop) (uid (mount ''r0'')) = Some [0, 0]"
    by (simp_all add: mount_def mobileProps_def mobileOnly_def desktop_def example_container)
  from render_client_first_false_found [OF this refl]
  show ?thesis
    by (simp add: mount_def mobileProps_def mobileOnly_def desktop_def example_cleared)
qed

lemma example_phone_first:
  "SkipRenderOnClient mobileProps (mount ''r0'') (Some phone) =
     Inr \<lparr>returned = \<lparr>tag = ''div'', idProp = ''r0'', content = Subtree ''MyMobileComponent''\<rparr>,
          instance_after = \<lparr>uid = ''r0'', isFirst_current = False\<rparr>,
          globals_after = Some phone,
          effects = [PredicateInvoked True, PredicateInvoked True]\<rparr>"
proof -
  have "isFirst_current (mount ''r0'')" "shouldRenderOnClient mobileProps phone"
    by (simp_all add: mount_def mobileProps_def mobileOnly_def phone_def)
  from render_client_first_true [OF this]
  show ?thesis by (simp add: mount_def mobileProps_def)
qed

section \<open>The first client render\<close>

text \<open>
  Claim C1, as stated, fails. On a desktop viewport the predicate of the documented example
  is false; the first client render of a fresh instance then returns the container with
  nothing in it, while the server render of the same props returns the container with the
  children.
\<close>

theorem first_client_render_differs_from_server:
  "elementOf (SkipRenderOnClient mobileProps (mount ''r0'') (Some desktop))
     = Some \<lparr>tag = ''div'', idProp = ''r0'', content = Nothing\<rparr>
   \<and> elementOf (SkipRenderOnClient mobileProps (mount ''r0'') None)
     = Some \<lparr>tag = ''div'', idProp = ''r0'', content = Subtree ''MyMobileComponent''\<rparr>
   \<and> elementOf (SkipRenderOnClient mobileProps (mount ''r0'') (Some desktop))
     \<noteq> elementOf (SkipRenderOnClient mobileProps (mount ''r0'') None)"
  by (simp add: example_desktop_first example_server)

text \<open>
  A client render leaves the state of the window alone, and the element it returns follows
  the predicate, evaluated on the globals the render leaves behind.
\<close>

lemma render_window_kept:
  "SkipRenderOnClient ps inst (Some br) = Inr r \<Longrightarrow>
     \<exists>br'. globals_after r = Some br' \<and> window br' = window br \<and>
       returned r = \<lparr>tag = ''div'', idProp = uid inst,
                      content = (if shouldRenderOnClient ps br'
                                 then children ps else Nothing)\<rparr>"
proof -
  assume r: "SkipRenderOnClient ps inst (Some br) = Inr r"
  show ?thesis
  proof (cases "isFirst_current inst")
    case False
    from r have "globals_after r = Some br \<and> window br = window br \<and>
       returned r = \<lparr>tag = ''div'', idProp = uid inst,
                      content = (if shouldRenderOnClient ps br
                                 then children ps else Nothing)\<rparr>"
      unfolding render_client_later [OF False] by auto
    then show ?thesis by blast
  next
    case first: True
    show ?thesis
    proof (cases "shouldRenderOnClient ps br")
      case True
      from r have "globals_after r = Some br \<and> window br = window br \<and>
       returned r = \<lparr>tag = ''div'', idProp = uid inst,
                      content = (if shouldRenderOnClient ps br
                                 then children ps else Nothing)\<rparr>"
        unfolding render_client_first_true [OF first True] using True by auto
      then show ?thesis by blast
    next
      case False
      show ?thesis
      proof (cases "getElementById (document br) (uid inst)")
        case None
        from r have "globals_after r = Some br \<and> window br = window br \<and>
         returned r = \<lparr>tag = ''div'', idProp = uid inst,
             content = (if shouldRenderOnClient ps br
                        then children ps else Nothing)\<rparr>"
          unfolding render_client_first_false_missing [OF first False None] using False by auto
        then show ?thesis by blast
      next
        case (Some p)
        let ?br' = "br\<lparr>document := removeChildrenAt p (document br)\<rparr>"
        from r have "globals_after r = Some ?br' \<and> window ?br' = window br \<and>
         returned r = \<lparr>tag = ''div'', idProp = uid inst,
             content = (if shouldRenderOnClient ps ?br'
                        then children ps else Nothing)\<rparr>"
          unfolding render_client_first_false_found [OF first False Some refl] by auto
        then show ?thesis by blast
      qed
    qed
  qed
qed

text \<open>
  When the children are the value \<^verbatim>\<open>false\<close> themselves, \<^verbatim>\<open>shouldRender && children\<close>
  is \<^verbatim>\<open>false\<close> either way: every client render then returns the element the server
  returns, whatever the predicate says.
\<close>

lemma render_false_children:
  assumes "children ps = Nothing"
    and "SkipRenderOnClient ps inst (Some br) = Inr r"
    and "SkipRenderOnClient ps inst None = Inr s"
  shows "returned r = returned s"
proof -
  obtain br' where "returned r =
      \<lparr>tag = ''div'', idProp = uid inst,
        content = (if shouldRenderOnClient ps br' then children ps else Nothing)\<rparr>"
    using render_window_kept [OF assms(2)] by blast
  then have "returned r = \<lparr>tag = ''div'', idProp = uid inst, content = Nothing\<rparr>"
    using assms(1) by simp
  moreover have "returned s = \<lparr>tag = ''div'', idProp = uid inst, content = Nothing\<rparr>"
    using assms(1,3) unfolding render_server by auto
  ultimately show ?thesis by simp
qed

text \<open>
  Claim C1, amended. The first client render of a fresh instance and the server render of
  the same props both return, and the server's element is the container holding the
  children as they were passed. The predicate is last evaluated on the globals \<open>br'\<close> the
  client render leaves (the window untouched; the document untouched too when the predicate
  held at the start). If it evaluates true there, the element returned is identical to the
  server's; if it evaluates false, the element returned is the container holding the value
  \<^verbatim>\<open>false\<close>, that is, with empty content, whatever the children are.
\<close>

theorem first_client_render_matches_server_iff_predicate:
  "\<exists>r s br'.
     SkipRenderOnClient \<lparr>children = c, shouldRenderOnClient = f\<rparr> (mount i) (Some br) = Inr r
     \<and> SkipRenderOnClient \<lparr>children = c, shouldRenderOnClient = f\<rparr> (mount i) None = Inr s
     \<and> globals_after r = Some br' \<and> window br' = window br
     \<and> returned s = \<lparr>tag = ''div'', idProp = i, content = c\<rparr>
     \<and> (f br \<longrightarrow> br' = br)
     \<and> (f br' \<longrightarrow> returned r = returned s)
     \<and> (\<not> f br' \<longrightarrow>
           returned r = \<lparr>tag = ''div'', idProp = i, content = Nothing\<rparr>)"
proof -
  let ?ps = "\<lparr>children = c, shouldRenderOnClient = f\<rparr>"
  obtain r where r: "SkipRenderOnClient ?ps (mount i) (Some br) = Inr r"
    using render_total by blast
  obtain br' where br': "globals_after r = Some br'" "window br' = window br"
    "returned r = \<lparr>tag = ''div'', idProp = i, content = (if f br' then c else Nothing)\<rparr>"
    using render_window_kept [OF r] by (auto simp: mount_def)
  have same: "f br \<longrightarrow> br' = br"
    using r br'(1) by (auto simp: render_client_first_true mount_def)
  have s: "SkipRenderOnClient ?ps (mount i) None =
      Inr \<lparr>returned = \<lparr>tag = ''div'', idProp = i, content = c\<rparr>,
           instance_after = (mount i)\<lparr>isFirst_current := False\<rparr>,
           globals_after = None, effects = []\<rparr>"
    by (simp add: render_server mount_def)
  show ?thesis
    using r br' same unfolding s by auto
qed

text \<open>
  Both cases occur in the documented example: a phone viewport (predicate true) and a
  desktop viewport (predicate false).
\<close>

theorem first_client_render_matches_server_iff_predicate_witness:
  "mobileOnly phone
   \<and> elementOf (SkipRenderOnClient mobileProps (mount ''r0'') (Some phone))
       = elementOf (SkipRenderOnClient mobileProps (mount ''r0'') None)
   \<and> \<not> mobileOnly desktop
   \<and> elementOf (SkipRenderOnClient mobileProps (mount ''r0'') (Some desktop))
       = Some \<lparr>tag = ''div'', idProp = ''r0'', content = Nothing\<rparr>"
proof -
  have a: "mobileOnly phone" by (simp add: mobileOnly_def phone_def)
  have b: "\<not> mobileOnly desktop" by (simp add: mobileOnly_def desktop_def)
  have w: "\<And>br' :: int browser. window br' = window desktop \<Longrightarrow> \<not> mobileOnly br'"
    by (simp add: mobileOnly_def desktop_def)
  show ?thesis
    using a b w
      first_client_render_matches_server_iff_predicate
        [of "Subtree ''MyMobileComponent''" mobileOnly "''r0''" phone]
      first_client_render_matches_server_iff_predicate
        [of "Subtree ''MyMobileComponent''" mobileOnly "''r0''" desktop]
    unfolding mobileProps_def [symmetric]
    by (elim exE conjE) simp
qed

text \<open>
  Claim C3. The first client render of a fresh instance returns, having evaluated the
  predicate twice: on the globals it was given and on the globals it leaves. If the predicate
  evaluated true, the element returned holds the children as they were passed and the
  document is as it was. If it evaluated false at the start, the container addressed by the
  instance's id, when the document has one, is still addressed by that id and has no child
  nodes, and a document without such a container is left as it was; if it evaluated false
  both times, the element returned is the container with empty content.
\<close>

theorem content_after_first_client_render:
  "\<exists>r br'.
     SkipRenderOnClient \<lparr>children = c, shouldRenderOnClient = f\<rparr> (mount i) (Some br) = Inr r
     \<and> globals_after r = Some br'
     \<and> filter isInvocation (effects r) = [PredicateInvoked (f br), PredicateInvoked (f br')]
     \<and> (f br \<longrightarrow>
           f br' \<and> returned r = \<lparr>tag = ''div'', idProp = i, content = c\<rparr> \<and> br' = br)
     \<and> (\<not> f br \<longrightarrow>
           (\<forall>p. getElementById (document br) i = Some p \<longrightarrow>
                getElementById (document br') i = Some p
                \<and> (\<exists>t. nodeAt p (document br') = Some (Element t (Some i) [])))
           \<and> (getElementById (document br) i = None \<longrightarrow> br' = br))
     \<and> (\<not> f br \<and> \<not> f br' \<longrightarrow>
           returned r = \<lparr>tag = ''div'', idProp = i, content = Nothing\<rparr>)"
proof -
  let ?ps = "\<lparr>children = c, shouldRenderOnClient = f\<rparr>"
  have first: "isFirst_current (mount i)" and uid: "uid (mount i) = i"
    by (simp_all add: mount_def)
  show ?thesis
  proof (cases "f br")
    case True
    then have "shouldRenderOnClient ?ps br" by simp
    from render_client_first_true [OF first this]
    show ?thesis using True by (simp add: uid)
  next
    case False
    then have nf: "\<not> shouldRenderOnClient ?ps br" by simp
    show ?thesis
    proof (cases "getElementById (document br) i")
      case None
      then have "getElementById (document br) (uid (mount i)) = None" by (simp add: uid)
      from render_client_first_false_missing [OF first nf this]
      show ?thesis using False None by (simp add: uid)
    next
      case (Some p)
      then have "getElementById (document br) (uid (mount i)) = Some p" by (simp add: uid)
      from render_client_first_false_found [OF first nf this refl]
      show ?thesis
        using False Some getElementById_after_clear(1) [OF Some] nodeAt_after_clear(1) [OF Some]
        by (simp add: uid)
    qed
  qed
qed

text \<open>The documented example on a phone and on a desktop viewport.\<close>

theorem content_after_first_client_render_witness:
  "mobileOnly phone
   \<and> SkipRenderOnClient mobileProps (mount ''r0'') (Some phone) =
       Inr \<lparr>returned = \<lparr>tag = ''div'', idProp = ''r0'', content = Subtree ''MyMobileComponent''\<rparr>,
            instance_after = \<lparr>uid = ''r0'', isFirst_current = False\<rparr>,
            globals_after = Some phone,
            effects = [PredicateInvoked True, PredicateInvoked True]\<rparr>
   \<and> \<not> mobileOnly desktop
   \<and> getElementById (document desktop) ''r0'' = Some [0, 0]
   \<and> (\<exists>r br'. SkipRenderOnClient mobileProps (mount ''r0'') (Some desktop) = Inr r
         \<and> globals_after r = Some br'
         \<and> \<not> mobileOnly br'
         \<and> returned r = \<lparr>tag = ''div'', idProp = ''r0'', content = Nothing\<rparr>
         \<and> nodeAt [0, 0] (document br') = Some (Element ''div'' (Some ''r0'') []))"
proof -
  have a: "mobileOnly phone" by (simp add: mobileOnly_def phone_def)
  have b: "\<not> mobileOnly desktop" by (simp add: mobileOnly_def desktop_def)
  have d: "getElementById (document desktop) ''r0'' = Some [0, 0]"
    by (simp add: desktop_def example_container)
  show ?thesis
    using a b d
      content_after_first_client_render [of "Subtree ''MyMobileComponent''" mobileOnly "''r0''" phone]
      content_after_first_client_render [of "Subtree ''MyMobileComponent''" mobileOnly "''r0''" desktop]
    unfolding mobileProps_def [symmetric]
    by (simp add: example_phone_first example_desktop_first mobileOnly_def clearedMarkup_def)
qed

section \<open>Renders after the first\<close>

text \<open>
  Claim C4. In any sequence of renders of an instance, every client render after the first
  returns the container with the children if the predicate evaluates true on that render
  and the container holding \<^verbatim>\<open>false\<close>, which renders empty, if it evaluates false; it
  evaluates the predicate once, performs
  no assignment to \<^verbatim>\<open>innerHTML\<close> and leaves the browser globals as they were. The
  sequence is arbitrary, so the predicate may flip either way between two renders.
\<close>

theorem steady_state_follows_predicate:
  "\<exists>rs. renders (mount i) xs = Inr rs \<and> length rs = length xs
     \<and> (\<forall>k br. 0 < k \<and> k < length xs \<and> snd (xs ! k) = Some br \<longrightarrow>
           returned (rs ! k) =
             \<lparr>tag = ''div'', idProp = i,
               content = (if shouldRenderOnClient (fst (xs ! k)) br
                          then children (fst (xs ! k)) else Nothing)\<rparr>
           \<and> globals_after (rs ! k) = Some br
           \<and> effects (rs ! k) = [PredicateInvoked (shouldRenderOnClient (fst (xs ! k)) br)])"
proof -
  obtain rs where rs: "renders (mount i) xs = Inr rs" "length rs = length xs"
    using renders_total by blast
  have "returned (rs ! k) =
             \<lparr>tag = ''div'', idProp = i,
               content = (if shouldRenderOnClient (fst (xs ! k)) br
                          then children (fst (xs ! k)) else Nothing)\<rparr>
           \<and> globals_after (rs ! k) = Some br
           \<and> effects (rs ! k) = [PredicateInvoked (shouldRenderOnClient (fst (xs ! k)) br)]"
    if k: "0 < k" "k < length xs" "snd (xs ! k) = Some br" for k br
  proof -
    obtain x xs' where xs: "xs = x # xs'" using k(2) by (cases xs) auto
    obtain r rs' where rs': "rs = r # rs'"
      and rest: "renders ((mount i)\<lparr>isFirst_current := False\<rparr>) xs' = Inr rs'"
      using renders_Cons [of "mount i" x xs' rs] rs(1) xs by blast
    obtain k' where k': "k = Suc k'" using k(1) by (cases k) auto
    have "rs' ! k' =
        \<lparr>returned = \<lparr>tag = ''div'', idProp = uid ((mount i)\<lparr>isFirst_current := False\<rparr>),
            content = (if shouldRenderOnClient (fst (xs' ! k')) br
                       then children (fst (xs' ! k')) else Nothing)\<rparr>,
             instance_after = (mount i)\<lparr>isFirst_current := False\<rparr>,
             globals_after = Some br,
             effects = [PredicateInvoked (shouldRenderOnClient (fst (xs' ! k')) br)]\<rparr>"
      using renders_later [OF _ rest, of k' br] k xs k' by simp
    then show ?thesis using xs rs' k' by (simp add: mount_def)
  qed
  then show ?thesis using rs by blast
qed

text \<open>
  Desktop, then phone, then desktop: the first render clears the container, the second
  brings the children back, the third drops them again through the returned element alone.
\<close>

theorem steady_state_follows_predicate_witness:
  "\<exists>rs. renders (mount ''r0'')
          [(mobileProps, Some desktop), (mobileProps, Some phone), (mobileProps, Some desktop)]
        = Inr rs
     \<and> mobileOnly phone \<and> \<not> mobileOnly desktop
     \<and> map returned rs =
         [\<lparr>tag = ''div'', idProp = ''r0'', content = Nothing\<rparr>,
          \<lparr>tag = ''div'', idProp = ''r0'', content = Subtree ''MyMobileComponent''\<rparr>,
          \<lparr>tag = ''div'', idProp = ''r0'', content = Nothing\<rparr>]
     \<and> effects (rs ! 0) = [PredicateInvoked False, ContainerCleared ''r0'', PredicateInvoked False]
     \<and> effects (rs ! 1) = [PredicateInvoked True] \<and> globals_after (rs ! 1) = Some phone
     \<and> effects (rs ! 2) = [PredicateInvoked False] \<and> globals_after (rs ! 2) = Some desktop"
proof -
  let ?xs = "[(mobileProps, Some desktop), (mobileProps, Some phone), (mobileProps, Some desktop)]"
  obtain rs where rs: "renders (mount ''r0'') ?xs = Inr rs" "length rs = length ?xs"
    and later: "\<forall>k br. 0 < k \<and> k < length ?xs \<and> snd (?xs ! k) = Some br \<longrightarrow>
           returned (rs ! k) =
             \<lparr>tag = ''div'', idProp = ''r0'',
               content = (if shouldRenderOnClient (fst (?xs ! k)) br
                          then children (fst (?xs ! k)) else Nothing)\<rparr>
           \<and> globals_after (rs ! k) = Some br
           \<and> effects (rs ! k) = [PredicateInvoked (shouldRenderOnClient (fst (?xs ! k)) br)]"
    using steady_state_follows_predicate [of "''r0''" ?xs] by blast
  have a: "mobileOnly phone" by (simp add: mobileOnly_def phone_def)
  have b: "\<not> mobileOnly desktop" by (simp add: mobileOnly_def desktop_def)
  obtain r0 r1 r2 where shape: "rs = [r0, r1, r2]"
    using rs(2) by (auto simp: length_Suc_conv numeral_3_eq_3)
  have r0: "r0 = \<lparr>returned = \<lparr>tag = ''div'', idProp = ''r0'', content = Nothing\<rparr>,
          instance_after = \<lparr>uid = ''r0'', isFirst_current = False\<rparr>,
          globals_after = Some \<lparr>window = 1024, document = clearedMarkup\<rparr>,
          effects = [PredicateInvoked False, ContainerCleared ''r0'', PredicateInvoked False]\<rparr>"
    using rs(1) shape by (auto simp: example_desktop_first split: sum.splits)
  have r1: "returned r1 = \<lparr>tag = ''div'', idProp = ''r0'', content = Subtree ''MyMobileComponent''\<rparr>
      \<and> globals_after r1 = Some phone \<and> effects r1 = [PredicateInvoked True]"
    using later [rule_format, of 1 phone] shape a by (simp add: mobileProps_def)
  have r2: "returned r2 = \<lparr>tag = ''div'', idProp = ''r0'', content = Nothing\<rparr>
      \<and> globals_after r2 = Some desktop \<and> effects r2 = [PredicateInvoked False]"
    using later [rule_format, of 2 desktop] shape b by (simp add: mobileProps_def)
  show ?thesis using rs(1) shape r0 r1 r2 a b by simp
qed

text \<open>
  Claim C5. Over any sequence of renders of an instance, the container is cleared at most
  once; a render that clears it is the first of the sequence, is a client render, clears the
  container of this instance's id, and found the predicate false on the globals it was
  given. Hence no server render and no later client render clears anything.
\<close>

theorem clear_fires_at_most_once:
  "\<exists>rs. renders (mount i) xs = Inr rs \<and> length rs = length xs
     \<and> length (filter isClear (concat (map effects rs))) \<le> 1
     \<and> (\<forall>k j. k < length xs \<and> ContainerCleared j \<in> set (effects (rs ! k)) \<longrightarrow>
           k = 0 \<and> j = i
           \<and> (\<exists>br. snd (xs ! k) = Some br \<and> \<not> shouldRenderOnClient (fst (xs ! k)) br))"
proof -
  obtain rs where rs: "renders (mount i) xs = Inr rs" "length rs = length xs"
    using renders_total by blast
  show ?thesis
  proof (cases xs)
    case Nil
    then show ?thesis using rs by simp
  next
    case (Cons x xs')
    obtain r rs' where rs': "rs = r # rs'"
      and r: "SkipRenderOnClient (fst x) (mount i) (snd x) = Inr r"
      and rest: "renders ((mount i)\<lparr>isFirst_current := False\<rparr>) xs' = Inr rs'"
      using renders_Cons [of "mount i" x xs' rs] rs(1) Cons by blast
    have none: "filter isClear (concat (map effects rs')) = []"
      using renders_later_no_clear [OF _ rest] by simp
    have one: "length (filter isClear (effects r)) \<le> 1"
      using render_clear_events [OF r] by blast
    have count: "length (filter isClear (concat (map effects rs))) \<le> 1"
      using none one rs' by simp
    have "k = 0 \<and> j = i
           \<and> (\<exists>br. snd (xs ! k) = Some br \<and> \<not> shouldRenderOnClient (fst (xs ! k)) br)"
      if k: "k < length xs" "ContainerCleared j \<in> set (effects (rs ! k))" for k j
    proof (cases k)
      case 0
      then have "ContainerCleared j \<in> set (effects r)" using k(2) rs' by simp
      then show ?thesis using render_clear_events [OF r, of j] 0 Cons by (simp add: mount_def)
    next
      case (Suc k')
      then have "rs ! k \<in> set rs'" using k(1) rs(2) rs' by simp
      then have "ContainerCleared j \<in> set (concat (map effects rs'))" using k(2) by auto
      then have "ContainerCleared j \<in> set (filter isClear (concat (map effects rs')))" by simp
      then show ?thesis using none by simp
    qed
    then show ?thesis using rs count by blast
  qed
qed

text \<open>A desktop render, a server render and a desktop render again: one clearing, in the first.\<close>

theorem clear_fires_at_most_once_witness:
  "\<exists>rs. renders (mount ''r0'')
          [(mobileProps, Some desktop), (mobileProps, None), (mobileProps, Some desktop)]
        = Inr rs
     \<and> ContainerCleared ''r0'' \<in> set (effects (rs ! 0))
     \<and> \<not> shouldRenderOnClient mobileProps desktop
     \<and> length (filter isClear (concat (map effects rs))) = 1"
proof -
  let ?xs = "[(mobileProps, Some desktop), (mobileProps, None), (mobileProps, Some desktop)]"
  obtain rs where rs: "renders (mount ''r0'') ?xs = Inr rs" "length rs = length ?xs"
    and most: "length (filter isClear (concat (map effects rs))) \<le> 1"
    and only: "\<forall>k j. k < length ?xs \<and> ContainerCleared j \<in> set (effects (rs ! k)) \<longrightarrow>
           k = 0 \<and> j = ''r0''
           \<and> (\<exists>br. snd (?xs ! k) = Some br \<and> \<not> shouldRenderOnClient (fst (?xs ! k)) br)"
    using clear_fires_at_most_once [of "''r0''" ?xs] by blast
  obtain r0 rs' where shape: "rs = r0 # rs'"
    using rs(2) by (cases rs) auto
  have r0: "r0 = \<lparr>returned = \<lparr>tag = ''div'', idProp = ''r0'', content = Nothing\<rparr>,
          instance_after = \<lparr>uid = ''r0'', isFirst_current = False\<rparr>,
          globals_after = Some \<lparr>window = 1024, document = clearedMarkup\<rparr>,
          effects = [PredicateInvoked False, ContainerCleared ''r0'', PredicateInvoked False]\<rparr>"
    using rs(1) shape by (auto simp: example_desktop_first split: sum.splits)
  have fired: "ContainerCleared ''r0'' \<in> set (effects (rs ! 0))"
    using shape r0 by simp
  have pred: "\<not> shouldRenderOnClient mobileProps desktop"
    using only [rule_format, of 0 "''r0''"] fired by simp
  have "1 \<le> length (filter isClear (concat (map effects rs)))"
    using shape r0 by simp
  then show ?thesis using rs(1) fired pred most by simp
qed

section \<open>Clearing a container that is missing\<close>

text \<open>
  Claim C7. If the document has no element of the given id, the clear step returns normally,
  records nothing and leaves the browser globals as they were. Running the clear step a
  second time, on the globals the first run left (container missing, or found and now
  empty), returns normally as well and leaves those globals unchanged. The clear step has no
  access to the hook state: a first client render whose predicate is false and whose
  container is missing returns the empty container, with the browser globals unchanged and
  the hook state exactly as \<^const>\<open>useIsFirstRender\<close> left it.
\<close>

theorem clear_step_without_container_is_noop:
  "(getElementById (document br) i = None \<longrightarrow> clearStep i (Some br) = Inr (Some br, []))
   \<and> (\<exists>g1 evs1 evs2. clearStep i (Some br) = Inr (g1, evs1) \<and> clearStep i g1 = Inr (g1, evs2))
   \<and> (getElementById (document br) i = None \<and> \<not> f br \<longrightarrow>
        SkipRenderOnClient \<lparr>children = c, shouldRenderOnClient = f\<rparr> (mount i) (Some br) =
          Inr \<lparr>returned = \<lparr>tag = ''div'', idProp = i, content = Nothing\<rparr>,
               instance_after = snd (useIsFirstRender (mount i)),
               globals_after = Some br,
               effects = [PredicateInvoked False, PredicateInvoked False]\<rparr>)"
proof -
  have again: "\<exists>g1 evs1 evs2. clearStep i (Some br) = Inr (g1, evs1) \<and> clearStep i g1 = Inr (g1, evs2)"
  proof (cases "getElementById (document br) i")
    case None
    then show ?thesis by (simp add: clearStep_missing)
  next
    case (Some p)
    let ?br' = "br\<lparr>document := removeChildrenAt p (document br)\<rparr>"
    have "getElementById (document ?br') i = Some p"
      using getElementById_after_clear(1) [OF Some] by simp
    then have "clearStep i (Some ?br') = Inr (Some ?br', [ContainerCleared i])"
      by (simp add: clearStep_found removeChildrenAt_twice)
    then show ?thesis using clearStep_found [OF Some] by simp
  qed
  have render: "SkipRenderOnClient \<lparr>children = c, shouldRenderOnClient = f\<rparr> (mount i) (Some br) =
          Inr \<lparr>returned = \<lparr>tag = ''div'', idProp = i, content = Nothing\<rparr>,
               instance_after = snd (useIsFirstRender (mount i)),
               globals_after = Some br,
               effects = [PredicateInvoked False, PredicateInvoked False]\<rparr>"
    if "getElementById (document br) i = None" "\<not> f br"
    using render_client_first_false_missing
      [of "mount i" "\<lparr>children = c, shouldRenderOnClient = f\<rparr>" br] that
    by (simp add: mount_def useIsFirstRender_def)
  show ?thesis using again render by (simp add: clearStep_missing)
qed

text \<open>The documented page has no element \<^verbatim>\<open>r7\<close>.\<close>

theorem clear_step_without_container_is_noop_witness:
  "getElementById (document desktop) ''r7'' = None
   \<and> \<not> mobileOnly desktop
   \<and> clearStep ''r7'' (Some desktop) = Inr (Some desktop, [])
   \<and> SkipRenderOnClient mobileProps (mount ''r7'') (Some desktop) =
          Inr \<lparr>returned = \<lparr>tag = ''div'', idProp = ''r7'', content = Nothing\<rparr>,
               instance_after = \<lparr>uid = ''r7'', isFirst_current = False\<rparr>,
               globals_after = Some desktop,
               effects = [PredicateInvoked False, PredicateInvoked False]\<rparr>"
proof -
  have a: "getElementById (document desktop) ''r7'' = None"
    by (simp add: desktop_def serverMarkup_def)
  have b: "\<not> mobileOnly desktop" by (simp add: mobileOnly_def desktop_def)
  show ?thesis
    using a b
      clear_step_without_container_is_noop [of desktop "''r7''" mobileOnly "Subtree ''MyMobileComponent''"]
    unfolding mobileProps_def [symmetric]
    by (simp add: useIsFirstRender_def mount_def)
qed

section \<open>The render-phase flag\<close>

text \<open>
  Claim C8. The cell of a fresh instance holds "first". The hook returns "first" on the
  first render and flips the cell in that same call; over any number of successive renders
  it returns "first" exactly once, at the start, and the cell ends "not first". After every
  render of any sequence of renders of the component, the cell holds "not first".
\<close>

theorem render_phase_flag_flips_once:
  "isFirst_current (mount i)
   \<and> useIsFirstRender (mount i) = (True, (mount i)\<lparr>isFirst_current := False\<rparr>)
   \<and> observeFirst (Suc n) (mount i) =
       (True # replicate n False, (mount i)\<lparr>isFirst_current := False\<rparr>)
   \<and> (\<exists>rs. renders (mount i) xs = Inr rs \<and> length rs = length xs
         \<and> (\<forall>r \<in> set rs. instance_after r = (mount i)\<lparr>isFirst_current := False\<rparr>))"
proof -
  have later: "observeFirst m inst = (replicate m False, inst)" if "\<not> isFirst_current inst"
    for m inst
    using that by (induction m) (simp_all add: useIsFirstRender_def)
  have hook: "useIsFirstRender (mount i) = (True, (mount i)\<lparr>isFirst_current := False\<rparr>)"
    by (simp add: useIsFirstRender_def mount_def)
  have obs: "observeFirst (Suc n) (mount i) =
       (True # replicate n False, (mount i)\<lparr>isFirst_current := False\<rparr>)"
    using later [of "(mount i)\<lparr>isFirst_current := False\<rparr>" n] by (simp add: hook)
  obtain rs where rs: "renders (mount i) xs = Inr rs" "length rs = length xs"
    using renders_total by blast
  have "\<forall>r \<in> set rs. instance_after r = (mount i)\<lparr>isFirst_current := False\<rparr>"
    using renders_instance_after [OF rs(1)] by blast
  then show ?thesis using hook obs rs by (simp add: mount_def)
qed

text \<open>Four calls of the hook, and two renders of the documented example.\<close>

theorem render_phase_flag_flips_once_witness:
  "observeFirst 4 (mount ''r0'') =
       ([True, False, False, False], \<lparr>uid = ''r0'', isFirst_current = False\<rparr>)
   \<and> (\<exists>rs. renders (mount ''r0'') [(mobileProps, Some desktop), (mobileProps, Some phone)] = Inr rs
         \<and> map instance_after rs =
             [\<lparr>uid = ''r0'', isFirst_current = False\<rparr>, \<lparr>uid = ''r0'', isFirst_current = False\<rparr>])"
proof -
  let ?xs = "[(mobileProps, Some desktop), (mobileProps, Some phone)]"
  have obs: "observeFirst (Suc 3) (mount ''r0'') =
       (True # replicate 3 False, (mount ''r0'')\<lparr>isFirst_current := False\<rparr>)"
    and "\<exists>rs. renders (mount ''r0'') ?xs = Inr rs \<and> length rs = length ?xs
         \<and> (\<forall>r \<in> set rs. instance_after r = (mount ''r0'')\<lparr>isFirst_current := False\<rparr>)"
    using render_phase_flag_flips_once [of "''r0''" 3 ?xs] by blast+
  then obtain rs where rs: "renders (mount ''r0'') ?xs = Inr rs" "length rs = length ?xs"
    "\<forall>r \<in> set rs. instance_after r = (mount ''r0'')\<lparr>isFirst_current := False\<rparr>"
    by blast
  obtain r0 r1 where shape: "rs = [r0, r1]"
    using rs(2) by (auto simp: length_Suc_conv numeral_2_eq_2)
  have "map instance_after rs =
      [\<lparr>uid = ''r0'', isFirst_current = False\<rparr>, \<lparr>uid = ''r0'', isFirst_current = False\<rparr>]"
    using rs(3) shape by (simp add: mount_def)
  moreover have "observeFirst 4 (mount ''r0'') =
       ([True, False, False, False], \<lparr>uid = ''r0'', isFirst_current = False\<rparr>)"
    using obs by (simp add: mount_def numeral_3_eq_3 eval_nat_numeral)
  ultimately show ?thesis using rs(1) by simp
qed

section \<open>When the container is cleared\<close>

text \<open>
  Claim C9, as stated, fails. In the first client pass of the documented example on a
  desktop viewport, the container is cleared inside the render call, between the two
  evaluations of the predicate, and so before the commit.
\<close>

theorem clear_precedes_commit_in_example:
  "firstClientPass mobileProps ''r0'' desktop =
     [Effect (PredicateInvoked False), Effect (ContainerCleared ''r0''),
      Effect (PredicateInvoked False), Commit]
   \<and> \<not> noClearBeforeCommit (firstClientPass mobileProps ''r0'' desktop)"
  by (simp add: firstClientPass_def example_desktop_first noClearBeforeCommit_def)

text \<open>The three shapes the first client pass of a fresh instance can take.\<close>

lemma firstClientPass_cases:
  "firstClientPass ps i br = [Effect (PredicateInvoked True), Effect (PredicateInvoked True), Commit]
   \<or> firstClientPass ps i br = [Effect (PredicateInvoked False), Effect (PredicateInvoked False), Commit]
   \<or> (\<exists>b. firstClientPass ps i br =
          [Effect (PredicateInvoked False), Effect (ContainerCleared i),
           Effect (PredicateInvoked b), Commit])"
proof -
  have first: "isFirst_current (mount i)" and uid: "uid (mount i) = i"
    by (simp_all add: mount_def)
  show ?thesis
  proof (cases "shouldRenderOnClient ps br")
    case True
    from render_client_first_true [OF first this]
    show ?thesis by (simp add: firstClientPass_def)
  next
    case False
    show ?thesis
    proof (cases "getElementById (document br) i")
      case None
      then have "getElementById (document br) (uid (mount i)) = None" by (simp add: uid)
      from render_client_first_false_missing [OF first False this]
      show ?thesis by (simp add: firstClientPass_def)
    next
      case (Some p)
      then have "getElementById (document br) (uid (mount i)) = Some p" by (simp add: uid)
      from render_client_first_false_found [OF first False this refl]
      show ?thesis by (simp add: firstClientPass_def uid)
    qed
  qed
qed

text \<open>
  Claim C9, amended. In the first client pass of a fresh instance nothing is cleared at or
  after the commit. When the container is cleared, it is the container of the instance's
  id, and the clearing runs inside the render call: after the first evaluation of the
  predicate, which returned false, and before the second evaluation, which decides the
  element that is returned and then committed.
\<close>

theorem clear_runs_inside_first_render:
  "noClearAfterCommit (firstClientPass ps i br)
   \<and> (Effect (ContainerCleared j) \<in> set (firstClientPass ps i br) \<longrightarrow>
        j = i
        \<and> (\<exists>b. firstClientPass ps i br =
              [Effect (PredicateInvoked False), Effect (ContainerCleared i),
               Effect (PredicateInvoked b), Commit]))"
  using firstClientPass_cases [of ps i br]
  by (auto simp: noClearAfterCommit_def)

text \<open>The documented example on a desktop viewport.\<close>

theorem clear_runs_inside_first_render_witness:
  "Effect (ContainerCleared ''r0'') \<in> set (firstClientPass mobileProps ''r0'' desktop)
   \<and> (\<exists>b. firstClientPass mobileProps ''r0'' desktop =
              [Effect (PredicateInvoked False), Effect (ContainerCleared ''r0''),
               Effect (PredicateInvoked b), Commit])
   \<and> noClearAfterCommit (firstClientPass mobileProps ''r0'' desktop)"
proof -
  have fired: "Effect (ContainerCleared ''r0'') \<in> set (firstClientPass mobileProps ''r0'' desktop)"
    by (simp add: firstClientPass_def example_desktop_first)
  show ?thesis
    using fired clear_runs_inside_first_render [of mobileProps "''r0''" desktop "''r0''"]
    by blast
qed

end
